theory Spec2Isabelle
  imports Main
begin

section \<open>The backend supervisor of the Electron shell\<close>

text \<open>
  The repository holds two revisions of the class \<open>BackendManager\<close>:
  \<^item> \<^verbatim>\<open>src/electron-app/src/backend-manager.js\<close>, called revision A below;
  \<^item> the module that follows the first separator in
    \<^verbatim>\<open>src/electron-app/src/preload.js\<close> (lines 10 to 158), called revision B.
  The constants, \<open>isPortAvailable\<close>, \<open>findAvailablePort\<close>, \<open>getBackendPath\<close>,
  \<open>stop\<close> and the handlers of the events \<open>error\<close> and \<open>exit\<close> are the same text in
  both. The body of \<open>start\<close> and the handler of the standard output differ, so each
  revision has its own definition of those.

  JavaScript numbers that hold ports, offsets and attempt counts are modelled as \<open>int\<close>.
\<close>

subsection \<open>Errors and promises\<close>

text \<open>
  The source raises plain \<open>Error\<close> objects that differ in their message only. Each
  constructor stands for one message template and carries the values the template
  interpolates:
  \<^item> \<open>NoPortAvailable lo hi\<close>: \<^verbatim>\<open>No available port found in range ${lo}-${hi}\<close>;
  \<^item> \<open>BackendNotFound p h\<close>: \<^verbatim>\<open>Backend not found: ${p}\n\n${h}\<close>;
  \<^item> \<open>StartupTimeout s\<close>: \<^verbatim>\<open>Backend startup timeout (${s}s)\<close>;
  \<^item> \<open>SpawnFailed m\<close>: \<^verbatim>\<open>Failed to start backend: ${m}\<close>.

  One more error comes from Node and passes through the source unchanged:
  \<open>BadPort p\<close> is the \<open>RangeError\<close> with code \<^verbatim>\<open>ERR_SOCKET_BAD_PORT\<close> that
  \<open>server.listen\<close> throws when it is given the port \<open>p\<close> outside 0 to 65535.
\<close>

datatype error =
    NoPortAvailable int int
  | BackendNotFound string string
  | StartupTimeout nat
  | SpawnFailed string
  | BadPort int

text \<open>A promise settles once: \<open>resolve\<close> and \<open>reject\<close> act on a pending promise only.\<close>

datatype 'a promise = Pending | Resolved 'a | Rejected error

fun resolve :: "'a \<Rightarrow> 'a promise \<Rightarrow> 'a promise" where
  "resolve v Pending = Resolved v"
| "resolve v p = p"

fun reject :: "error \<Rightarrow> 'a promise \<Rightarrow> 'a promise" where
  "reject e Pending = Rejected e"
| "reject e p = p"

subsection \<open>The port allocator\<close>

definition DEFAULT_PORT :: int where
  "DEFAULT_PORT = 7861"

definition MAX_PORT_ATTEMPTS :: int where
  "MAX_PORT_ATTEMPTS = 10"

text \<open>
  \<open>server.listen(port, 'localhost')\<close> first validates the port: outside 0 to 65535 it
  throws at once, inside the executor of the promise, so the promise of
  \<open>isPortAvailable\<close> is rejected with that error. For a valid port the call ends in one
  of the events \<open>error\<close> and \<open>listening\<close>; which one is decided by the network, a
  parameter of the model. One call of \<open>findAvailablePort\<close> listens on each port at most
  once, so a function of the port covers a network that changes while the loop runs.
\<close>

datatype listen_event = ListenError | Listening

definition validPort :: "int \<Rightarrow> bool" where
  "validPort port = (0 \<le> port \<and> port \<le> 65535)"

text \<open>\<open>Inr b\<close>: the promise resolves with \<open>b\<close>. \<open>Inl err\<close>: it is rejected with \<open>err\<close>.\<close>

definition isPortAvailable :: "(int \<Rightarrow> listen_event) \<Rightarrow> int \<Rightarrow> error + bool" where
  "isPortAvailable net port =
     (if validPort port
      then Inr (case net port of ListenError \<Rightarrow> False | Listening \<Rightarrow> True)
      else Inl (BadPort port))"

text \<open>
  The loop of \<open>findAvailablePort\<close>, from the offset it has reached. The second argument
  of the result is what the function returns or throws; the first is the list of the
  ports handed to \<open>isPortAvailable\<close> so far, in the order of the calls. A rejection of
  \<open>isPortAvailable\<close> is thrown again by the \<open>await\<close> and ends the loop.
\<close>

function findAvailablePort_loop ::
  "(int \<Rightarrow> listen_event) \<Rightarrow> int \<Rightarrow> int \<Rightarrow> int \<Rightarrow> int list \<Rightarrow> int list \<times> (error + int)" where
  "findAvailablePort_loop net startPort maxAttempts offset probed =
     (if offset < maxAttempts then
        (let port = startPort + offset in
         case isPortAvailable net port of
           Inl err \<Rightarrow> (probed @ [port], Inl err)
         | Inr available \<Rightarrow>
             if available then (probed @ [port], Inr port)
             else findAvailablePort_loop net startPort maxAttempts (offset + 1)
                    (probed @ [port]))
      else (probed, Inl (NoPortAvailable startPort (startPort + maxAttempts - 1))))"
  by pat_completeness auto
termination
  by (relation "measure (\<lambda>(net, startPort, maxAttempts, offset, probed). nat (maxAttempts - offset))")
     auto

definition findAvailablePort ::
  "(int \<Rightarrow> listen_event) \<Rightarrow> int \<Rightarrow> int \<Rightarrow> int list \<times> (error + int)" where
  "findAvailablePort net startPort maxAttempts =
     findAvailablePort_loop net startPort maxAttempts 0 []"

subsection \<open>Text of the child's output\<close>

text \<open>
  A chunk of output is the result of \<open>data.toString()\<close>, modelled as a \<open>string\<close>. All
  patterns the handlers look for are ASCII.
\<close>

fun starts_with :: "string \<Rightarrow> string \<Rightarrow> bool" where
  "starts_with [] s = True"
| "starts_with (p # ps) [] = False"
| "starts_with (p # ps) (c # cs) = (p = c \<and> starts_with ps cs)"

text \<open>\<open>includes_js output pat\<close> is \<open>output.includes(pat)\<close>.\<close>

fun includes_js :: "string \<Rightarrow> string \<Rightarrow> bool" where
  "includes_js [] pat = (pat = [])"
| "includes_js (c # cs) pat = (starts_with pat (c # cs) \<or> includes_js cs pat)"

definition is_digit :: "char \<Rightarrow> bool" where
  "is_digit c = (c \<in> set ''0123456789'')"

text \<open>
  \<open>output.match(/localhost:(\d+)/)\<close>: the leftmost position where \<open>localhost:\<close> is
  followed by a digit; the group is the longest run of digits there. The result is the
  text of the group, \<open>None\<close> for \<open>null\<close>.
\<close>

fun match_localhost :: "string \<Rightarrow> string option" where
  "match_localhost [] = None"
| "match_localhost (c # cs) =
     (let ds = takeWhile is_digit (drop 10 (c # cs)) in
      if starts_with ''localhost:'' (c # cs) \<and> ds \<noteq> [] then Some ds
      else match_localhost cs)"

definition digit_val :: "char \<Rightarrow> int" where
  "digit_val c = int (of_char c) - 48"

text \<open>
  \<open>parseInt(ds, 10)\<close> on a run of decimal digits. JavaScript agrees with this value
  below \<open>2 ^ 53\<close> and rounds to a double above.
\<close>

definition parseInt :: "string \<Rightarrow> int" where
  "parseInt ds = foldl (\<lambda>acc c. 10 * acc + digit_val c) 0 ds"

definition digit_char :: "nat \<Rightarrow> char" where
  "digit_char n = ''0123456789'' ! n"

fun digits_of :: "nat \<Rightarrow> string" where
  "digits_of n =
     (if n < 10 then [digit_char n] else digits_of (n div 10) @ [digit_char (n mod 10)])"

text \<open>\<open>port.toString()\<close> on an integer.\<close>

definition toString :: "int \<Rightarrow> string" where
  "toString n = (if n < 0 then CHR ''-'' # digits_of (nat (- n)) else digits_of (nat n))"

subsection \<open>The state of the supervisor and its surroundings\<close>

text \<open>
  A child process handle; \<open>pid\<close> is \<open>None\<close> when the operating system created no process
  (\<open>undefined\<close> in Node).
\<close>

datatype child_process = ChildProcess (pid: "nat option")

record BackendManager =
  process :: "child_process option"
  port :: int
  isReady :: bool

definition constructor :: BackendManager where
  "constructor = \<lparr>process = None, port = DEFAULT_PORT, isReady = False\<rparr>"

datatype stdio_mode = Pipe | Inherit | Ignore

text \<open>One call of \<open>child_process.spawn\<close>: the command, its arguments and the options.\<close>

record spawn_call =
  command :: string
  args :: "string list"
  stdio :: "stdio_mode list"
  windowsHide :: bool

text \<open>
  What \<open>start\<close> reads from outside the class: the network, Electron's \<open>app.isPackaged\<close>,
  \<open>process.resourcesPath\<close>, \<open>__dirname\<close>, Node's \<open>path.join\<close> and \<open>fs.existsSync\<close>, and
  the handle that \<open>spawn\<close> returns for a call. A process that could not be created
  shows as the event \<open>error\<close> of the handle, delivered later.
\<close>

record env =
  net :: "int \<Rightarrow> listen_event"
  isPackaged :: bool
  resourcesPath :: string
  dirname :: string
  path_join :: "string list \<Rightarrow> string"
  existsSync :: "string \<Rightarrow> bool"
  spawn :: "spawn_call \<Rightarrow> child_process"

definition getBackendPath :: "env \<Rightarrow> string" where
  "getBackendPath e =
     (if isPackaged e then path_join e [resourcesPath e, ''backend'', ''backend.exe'']
      else path_join e [dirname e, ''../../python-dist/backend.exe''])"

text \<open>
  One call of \<open>start\<close>: the object, the promise the call returned, the timer (\<open>Some ms\<close>
  while it is set, \<open>None\<close> before \<open>setTimeout\<close>, after \<open>clearTimeout\<close> and after it
  fired), the ports probed and the calls of \<open>spawn\<close> made. Console output is left out.
\<close>

record start_state =
  mgr :: BackendManager
  outcome :: "int promise"
  timeout :: "nat option"
  probed :: "int list"
  spawned :: "spawn_call list"

subsection \<open>\<open>start\<close>, revision A (backend-manager.js)\<close>

definition start_A :: "env \<Rightarrow> BackendManager \<Rightarrow> start_state" where
  "start_A e this =
     (case findAvailablePort (net e) DEFAULT_PORT MAX_PORT_ATTEMPTS of
        (pr, Inl err) \<Rightarrow>
          \<lparr>mgr = this, outcome = reject err Pending, timeout = None, probed = pr, spawned = []\<rparr>
      | (pr, Inr p) \<Rightarrow>
          (let this1 = this\<lparr>port := p\<rparr>;
               backendPath = getBackendPath e;
               call = \<lparr>command = backendPath, args = [''-u''],
                       stdio = [Pipe, Pipe, Pipe], windowsHide = True\<rparr>;
               this2 = this1\<lparr>process := Some (spawn e call)\<rparr>
           in \<lparr>mgr = this2, outcome = Pending, timeout = Some 30000, probed = pr,
               spawned = [call]\<rparr>))"

definition onTimeout_A :: "start_state \<Rightarrow> start_state" where
  "onTimeout_A st = st\<lparr>outcome := reject (StartupTimeout 30) (outcome st)\<rparr>"

definition onStdout_A :: "string \<Rightarrow> start_state \<Rightarrow> start_state" where
  "onStdout_A output st =
     (let portMatch = match_localhost output in
      if includes_js output ''Running on'' \<or> portMatch \<noteq> None then
        (let this1 = (case portMatch of
                        Some ds \<Rightarrow> (mgr st)\<lparr>port := parseInt ds\<rparr>
                      | None \<Rightarrow> mgr st)
         in st\<lparr>mgr := this1\<lparr>isReady := True\<rparr>, timeout := None,
               outcome := resolve (port this1) (outcome st)\<rparr>)
      else st)"

subsection \<open>\<open>start\<close>, revision B (the second module of preload.js)\<close>

definition helpMsg :: "bool \<Rightarrow> string" where
  \<open>helpMsg isDev =
     (if isDev
      then ''Run "pyinstaller backend.spec --clean && cp dist/backend.exe python-dist/" to build it.''
      else ''Please reinstall the application or contact support.'')\<close>

definition start_B :: "env \<Rightarrow> BackendManager \<Rightarrow> start_state" where
  "start_B e this =
     (case findAvailablePort (net e) DEFAULT_PORT MAX_PORT_ATTEMPTS of
        (pr, Inl err) \<Rightarrow>
          \<lparr>mgr = this, outcome = reject err Pending, timeout = None, probed = pr, spawned = []\<rparr>
      | (pr, Inr p) \<Rightarrow>
          (let this1 = this\<lparr>port := p\<rparr>;
               backendPath = getBackendPath e
           in if \<not> existsSync e backendPath then
                (let isDev = (\<not> isPackaged e) in
                 \<lparr>mgr = this1,
                  outcome = reject (BackendNotFound backendPath (helpMsg isDev)) Pending,
                  timeout = None, probed = pr, spawned = []\<rparr>)
              else
                (let call = \<lparr>command = backendPath,
                             args = [''-u'', ''--port'', toString (port this1)],
                             stdio = [Pipe, Pipe, Pipe], windowsHide = True\<rparr>;
                     this2 = this1\<lparr>process := Some (spawn e call)\<rparr>
                 in \<lparr>mgr = this2, outcome = Pending, timeout = Some 60000, probed = pr,
                     spawned = [call]\<rparr>)))"

definition onTimeout_B :: "start_state \<Rightarrow> start_state" where
  "onTimeout_B st = st\<lparr>outcome := reject (StartupTimeout 60) (outcome st)\<rparr>"

definition onStdout_B :: "string \<Rightarrow> start_state \<Rightarrow> start_state" where
  "onStdout_B output st =
     (if includes_js output ''initializing'' then st
      else
        (let portMatch = match_localhost output;
             ready = (includes_js output ''Running on'' \<or>
                      includes_js output ''Launching Gradio'' \<or>
                      includes_js output ''local URL:'' \<or>
                      portMatch \<noteq> None)
         in if ready then
              (let this1 = (case portMatch of
                              Some ds \<Rightarrow> (mgr st)\<lparr>port := parseInt ds\<rparr>
                            | None \<Rightarrow> mgr st)
               in st\<lparr>mgr := this1\<lparr>isReady := True\<rparr>, timeout := None,
                     outcome := resolve (port this1) (outcome st)\<rparr>)
            else st))"

subsection \<open>The handlers both revisions share, and the delivery of events\<close>

definition onError :: "string \<Rightarrow> start_state \<Rightarrow> start_state" where
  "onError message st =
     st\<lparr>timeout := None, outcome := reject (SpawnFailed message) (outcome st)\<rparr>"

definition onExit :: "int option \<Rightarrow> start_state \<Rightarrow> start_state" where
  "onExit code st = st\<lparr>mgr := (mgr st)\<lparr>isReady := False\<rparr>\<rparr>"

datatype revision = RevA | RevB

text \<open>
  What reaches the handlers that one call of \<open>start\<close> registered: chunks of the child's
  standard output and standard error, the child's events \<open>error\<close> (with
  \<open>err.message\<close>) and \<open>exit\<close> (with the exit code, \<open>None\<close> for \<open>null\<close>), and the timer.
\<close>

datatype event =
    StdoutData string
  | StderrData string
  | ProcError string
  | ProcExit "int option"
  | TimerFired

text \<open>
  A call that spawned nothing registered no handler and set no timer. A timer that was
  cleared, or that fired before, does not fire. The handler of the standard error only
  logs.
\<close>

fun deliver :: "revision \<Rightarrow> event \<Rightarrow> start_state \<Rightarrow> start_state" where
  "deliver rv ev st =
     (if spawned st = [] then st
      else case ev of
        StdoutData output \<Rightarrow>
          (case rv of RevA \<Rightarrow> onStdout_A output st | RevB \<Rightarrow> onStdout_B output st)
      | StderrData output \<Rightarrow> st
      | ProcError message \<Rightarrow> onError message st
      | ProcExit code \<Rightarrow> onExit code st
      | TimerFired \<Rightarrow>
          (case timeout st of
             None \<Rightarrow> st
           | Some ms \<Rightarrow>
               (case rv of
                  RevA \<Rightarrow> onTimeout_A (st\<lparr>timeout := None\<rparr>)
                | RevB \<Rightarrow> onTimeout_B (st\<lparr>timeout := None\<rparr>))))"

fun run :: "revision \<Rightarrow> event list \<Rightarrow> start_state \<Rightarrow> start_state" where
  "run rv [] st = st"
| "run rv (ev # evs) st = run rv evs (deliver rv ev st)"

definition start :: "revision \<Rightarrow> env \<Rightarrow> BackendManager \<Rightarrow> start_state" where
  "start rv e this = (case rv of RevA \<Rightarrow> start_A e this | RevB \<Rightarrow> start_B e this)"

subsection \<open>\<open>stop\<close>\<close>

text \<open>
  \<open>kill\<close> is the package tree-kill: \<open>kill pid signal\<close> is the error it hands to its
  callback, \<open>None\<close> when it reports none. The package calls the callback in every case.
  The result records the object afterwards, the calls of \<open>kill\<close> made, what
  \<open>console.error\<close> received and the promise \<open>stop\<close> returned.
\<close>

record stop_result =
  this_after :: BackendManager
  kills :: "(nat option \<times> string) list"
  errors_logged :: "string list"
  stop_outcome :: "unit promise"

definition stop :: "(nat option \<Rightarrow> string \<Rightarrow> string option) \<Rightarrow> BackendManager \<Rightarrow> stop_result" where
  "stop kill this =
     (case process this of
        Some child \<Rightarrow>
          (let err = kill (pid child) ''SIGTERM'' in
           \<lparr>this_after = this\<lparr>process := None, isReady := False\<rparr>,
            kills = [(pid child, ''SIGTERM'')],
            errors_logged = (case err of Some m \<Rightarrow> [m] | None \<Rightarrow> []),
            stop_outcome = resolve () Pending\<rparr>)
      | None \<Rightarrow>
          \<lparr>this_after = this, kills = [], errors_logged = [], stop_outcome = resolve () Pending\<rparr>)"

subsection \<open>Readiness chunks, silent events and the history of the ready flag\<close>

text \<open>
  The test each handler of the standard output applies to a chunk before it marks the
  object ready: the condition of the \<open>if\<close> in revision A, and in revision B the same
  with two more substrings, behind the early return on \<open>initializing\<close>.
\<close>

fun ready_chunk :: "revision \<Rightarrow> string \<Rightarrow> bool" where
  "ready_chunk RevA output =
     (includes_js output ''Running on'' \<or> match_localhost output \<noteq> None)"
| "ready_chunk RevB output =
     (\<not> includes_js output ''initializing'' \<and>
      (includes_js output ''Running on'' \<or> includes_js output ''Launching Gradio'' \<or>
       includes_js output ''local URL:'' \<or> match_localhost output \<noteq> None))"

text \<open>
  An event is silent when it is neither a readiness chunk, nor the event \<open>error\<close>, nor
  the timer.
\<close>

fun silent :: "revision \<Rightarrow> event \<Rightarrow> bool" where
  "silent rv (StdoutData output) = (\<not> ready_chunk rv output)"
| "silent rv (StderrData output) = True"
| "silent rv (ProcError message) = False"
| "silent rv (ProcExit code) = True"
| "silent rv TimerFired = False"

text \<open>The value of \<open>isReady\<close> after each event of a list, in order.\<close>

fun ready_flags :: "revision \<Rightarrow> event list \<Rightarrow> start_state \<Rightarrow> bool list" where
  "ready_flags rv [] st = []"
| "ready_flags rv (ev # evs) st =
     isReady (mgr (deliver rv ev st)) # ready_flags rv evs (deliver rv ev st)"

text \<open>How often a list of flags steps from false to true, the flag before it being \<open>b\<close>.\<close>

fun rises :: "bool \<Rightarrow> bool list \<Rightarrow> nat" where
  "rises b [] = 0"
| "rises b (c # cs) = (if \<not> b \<and> c then 1 else 0) + rises c cs"

subsection \<open>Concrete surroundings used to run the model\<close>

text \<open>A network where the ports below 7863 are taken, and one where every port is.\<close>

definition net_7863 :: "int \<Rightarrow> listen_event" where
  "net_7863 p = (if p < 7863 then ListenError else Listening)"

definition net_busy :: "int \<Rightarrow> listen_event" where
  "net_busy p = ListenError"


definition join_slash :: "string list \<Rightarrow> string" where
  "join_slash xs = concat (map ((#) CHR ''/'') xs)"

definition exists_all :: "string \<Rightarrow> bool" where
  "exists_all p = True"

definition exists_none :: "string \<Rightarrow> bool" where
  "exists_none p = False"

definition spawn_4242 :: "spawn_call \<Rightarrow> child_process" where
  "spawn_4242 c = ChildProcess (Some 4242)"

definition env_dev :: env where
  "env_dev = \<lparr>net = net_7863, isPackaged = False, resourcesPath = ''res'',
     dirname = ''src'', path_join = join_slash, existsSync = exists_all,
     spawn = spawn_4242\<rparr>"

definition env_busy :: env where
  "env_busy = env_dev\<lparr>net := net_busy\<rparr>"

definition env_missing :: env where
  "env_missing = env_dev\<lparr>existsSync := exists_none\<rparr>"

definition env_busy_missing :: env where
  "env_busy_missing = env_busy\<lparr>existsSync := exists_none\<rparr>"

definition kill_ok :: "nat option \<Rightarrow> string \<Rightarrow> string option" where
  "kill_ok p sig = None"

definition kill_fails :: "nat option \<Rightarrow> string \<Rightarrow> string option" where
  "kill_fails p sig = Some ''kill ESRCH''"

section \<open>Properties\<close>

subsection \<open>The port allocator\<close>

lemma findAvailablePort_loop_unfold:
  "findAvailablePort_loop nw P N off pr =
     (if off < N then
        (case isPortAvailable nw (P + off) of
           Inl err \<Rightarrow> (pr @ [P + off], Inl err)
         | Inr available \<Rightarrow>
             if available then (pr @ [P + off], Inr (P + off))
             else findAvailablePort_loop nw P N (off + 1) (pr @ [P + off]))
      else (pr, Inl (NoPortAvailable P (P + N - 1))))"
  by (subst findAvailablePort_loop.simps) (simp add: Let_def)

declare findAvailablePort_loop.simps [simp del]

lemma isPortAvailable_Inl: "isPortAvailable nw q = Inl err \<longleftrightarrow> \<not> validPort q \<and> err = BadPort q"
  by (auto simp add: isPortAvailable_def)

lemma isPortAvailable_Inr:
  "isPortAvailable nw q = Inr b \<longleftrightarrow> validPort q \<and> b = (nw q = Listening)"
  by (cases "nw q") (auto simp add: isPortAvailable_def)

lemma upto_step: "a \<le> b \<Longrightarrow> [a..b] = a # [a + 1..b]"
  by (subst upto_rec1) simp_all

text \<open>The three ways the loop ends, from any offset.\<close>

lemma loop_result:
  assumes "findAvailablePort_loop nw P N off pr = (prb, res)"
  shows "(\<exists>p. res = Inr p \<and> P + off \<le> p \<and> p < P + N \<and> isPortAvailable nw p = Inr True \<and>
            (\<forall>q. P + off \<le> q \<and> q < p \<longrightarrow> isPortAvailable nw q = Inr False) \<and>
            prb = pr @ [P + off..p]) \<or>
         (res = Inl (NoPortAvailable P (P + N - 1)) \<and>
            (\<forall>q. P + off \<le> q \<and> q < P + N \<longrightarrow> isPortAvailable nw q = Inr False) \<and>
            prb = pr @ [P + off..P + N - 1]) \<or>
         (\<exists>b. res = Inl (BadPort b) \<and> P + off \<le> b \<and> b < P + N \<and> \<not> validPort b \<and>
            (\<forall>q. P + off \<le> q \<and> q < b \<longrightarrow> isPortAvailable nw q = Inr False) \<and>
            prb = pr @ [P + off..b])"
  using assms
proof (induction "nat (N - off)" arbitrary: off pr)
  case 0
  then have "\<not> off < N" by simp
  with "0.prems" have "prb = pr" "res = Inl (NoPortAvailable P (P + N - 1))"
    by (subst (asm) findAvailablePort_loop_unfold, simp)+
  with \<open>\<not> off < N\<close> show ?case by auto
next
  case (Suc k)
  then have lt: "off < N" by simp
  show ?case
  proof (cases "isPortAvailable nw (P + off)")
    case (Inl err)
    with lt Suc.prems have r: "prb = pr @ [P + off]" "res = Inl err"
      by (subst (asm) findAvailablePort_loop_unfold, simp)+
    from Inl have bad: "\<not> validPort (P + off)" "err = BadPort (P + off)"
      by (simp_all add: isPortAvailable_Inl)
    have "res = Inl (BadPort (P + off)) \<and> P + off \<le> P + off \<and> P + off < P + N \<and>
        \<not> validPort (P + off) \<and>
        (\<forall>q. P + off \<le> q \<and> q < P + off \<longrightarrow> isPortAvailable nw q = Inr False) \<and>
        prb = pr @ [P + off..P + off]"
      using r bad lt by auto
    then show ?thesis by blast
  next
    case (Inr available)
    show ?thesis
    proof (cases available)
      case True
      with Inr lt Suc.prems have r: "prb = pr @ [P + off]" "res = Inr (P + off)"
        by (subst (asm) findAvailablePort_loop_unfold, simp)+
      have "res = Inr (P + off) \<and> P + off \<le> P + off \<and> P + off < P + N \<and>
          isPortAvailable nw (P + off) = Inr True \<and>
          (\<forall>q. P + off \<le> q \<and> q < P + off \<longrightarrow> isPortAvailable nw q = Inr False) \<and>
          prb = pr @ [P + off..P + off]"
        using r Inr True lt by auto
      then show ?thesis by blast
    next
      case False
      with Inr have here: "isPortAvailable nw (P + off) = Inr False" by simp
      with lt Suc.prems
      have rec: "findAvailablePort_loop nw P N (off + 1) (pr @ [P + off]) = (prb, res)"
        by (subst (asm) findAvailablePort_loop_unfold) simp
      from Suc.hyps(2) have k: "k = nat (N - (off + 1))" by simp
      have below: "isPortAvailable nw q = Inr False"
        if "\<forall>r. P + (off + 1) \<le> r \<and> r < u \<longrightarrow> isPortAvailable nw r = Inr False"
          and "P + off \<le> q" and "q < u" for q u
      proof (cases "q = P + off")
        case True
        with here show ?thesis by simp
      next
        case False
        with that(2) have "P + (off + 1) \<le> q" by simp
        with that(1,3) show ?thesis by blast
      qed
      from Suc.hyps(1) [OF k rec] show ?thesis
      proof (elim disjE exE conjE)
        fix p
        assume a: "res = Inr p" "P + (off + 1) \<le> p" "p < P + N"
          "isPortAvailable nw p = Inr True"
          "\<forall>q. P + (off + 1) \<le> q \<and> q < p \<longrightarrow> isPortAvailable nw q = Inr False"
          "prb = (pr @ [P + off]) @ [P + (off + 1)..p]"
        have "[P + off..p] = (P + off) # [P + (off + 1)..p]"
          using a(2) upto_step [of "P + off" p] by (simp add: add.assoc)
        with a below [OF a(5)]
        have "res = Inr p \<and> P + off \<le> p \<and> p < P + N \<and> isPortAvailable nw p = Inr True \<and>
            (\<forall>q. P + off \<le> q \<and> q < p \<longrightarrow> isPortAvailable nw q = Inr False) \<and>
            prb = pr @ [P + off..p]"
          by simp
        then show ?thesis by blast
      next
        assume a: "res = Inl (NoPortAvailable P (P + N - 1))"
          "\<forall>q. P + (off + 1) \<le> q \<and> q < P + N \<longrightarrow> isPortAvailable nw q = Inr False"
          "prb = (pr @ [P + off]) @ [P + (off + 1)..P + N - 1]"
        have "[P + off..P + N - 1] = (P + off) # [P + (off + 1)..P + N - 1]"
          using lt upto_step [of "P + off" "P + N - 1"] by (simp add: add.assoc)
        with a below [OF a(2)] show ?thesis by simp
      next
        fix b
        assume a: "res = Inl (BadPort b)" "P + (off + 1) \<le> b" "b < P + N" "\<not> validPort b"
          "\<forall>q. P + (off + 1) \<le> q \<and> q < b \<longrightarrow> isPortAvailable nw q = Inr False"
          "prb = (pr @ [P + off]) @ [P + (off + 1)..b]"
        have "[P + off..b] = (P + off) # [P + (off + 1)..b]"
          using a(2) upto_step [of "P + off" b] by (simp add: add.assoc)
        with a below [OF a(5)]
        have "res = Inl (BadPort b) \<and> P + off \<le> b \<and> b < P + N \<and> \<not> validPort b \<and>
            (\<forall>q. P + off \<le> q \<and> q < b \<longrightarrow> isPortAvailable nw q = Inr False) \<and>
            prb = pr @ [P + off..b]"
          by simp
        then show ?thesis by blast
      qed
    qed
  qed
qed

lemma loop_found:
  assumes "findAvailablePort_loop nw P N off pr = (prb, Inr p)"
  shows "P + off \<le> p \<and> p < P + N \<and> isPortAvailable nw p = Inr True \<and>
     (\<forall>q. P + off \<le> q \<and> q < p \<longrightarrow> isPortAvailable nw q = Inr False) \<and>
     prb = pr @ [P + off..p]"
  using loop_result [OF assms] by auto

lemma findAvailablePort_exhausted:
  assumes "\<forall>q. P \<le> q \<and> q < P + N \<longrightarrow> isPortAvailable nw q = Inr False"
  shows "findAvailablePort nw P N = ([P..P + N - 1], Inl (NoPortAvailable P (P + N - 1)))"
proof (cases "findAvailablePort nw P N")
  case (Pair prb res)
  then have "findAvailablePort_loop nw P N 0 [] = (prb, res)"
    by (simp add: findAvailablePort_def)
  from loop_result [OF this] show ?thesis
  proof (elim disjE exE conjE)
    fix p assume "P + 0 \<le> p" "p < P + N" "isPortAvailable nw p = Inr True"
    with assms show ?thesis by auto
  next
    assume "res = Inl (NoPortAvailable P (P + N - 1))" "prb = [] @ [P + 0..P + N - 1]"
    with Pair show ?thesis by simp
  next
    fix b assume "P + 0 \<le> b" "b < P + N" "\<not> validPort b"
    with assms have "isPortAvailable nw b = Inr False" by simp
    with \<open>\<not> validPort b\<close> show ?thesis by (simp add: isPortAvailable_Inr)
  qed
qed


lemma findAvailablePort_net_7863:
  "findAvailablePort net_7863 7861 10 = ([7861, 7862, 7863], Inr 7863)"
  by (simp add: findAvailablePort_def findAvailablePort_loop_unfold isPortAvailable_def
      validPort_def net_7863_def)




subsection \<open>Exhausted ports\<close>

lemma findAvailablePort_net_busy:
  "findAvailablePort net_busy 7861 10 =
     ([7861, 7862, 7863, 7864, 7865, 7866, 7867, 7868, 7869, 7870],
      Inl (NoPortAvailable 7861 7870))"
  by (simp add: findAvailablePort_def findAvailablePort_loop_unfold isPortAvailable_def
      validPort_def net_busy_def)

lemma run_nothing_spawned: "spawned st = [] \<Longrightarrow> run rv evs st = st"
  by (induction evs) simp_all

text \<open>
  Claim C2. When listening is refused on every port of the range \<open>start\<close> probes, 7861
  to 7870, \<open>findAvailablePort\<close> throws the error that names this range, the promise of
  \<open>start\<close> is rejected with that same error, \<open>spawn\<close> is not called, the object is left
  as it was, and no later event changes any of this. This holds in both revisions.
\<close>

theorem start_all_ports_occupied:
  assumes "\<forall>p\<in>{DEFAULT_PORT..<DEFAULT_PORT + MAX_PORT_ATTEMPTS}.
             isPortAvailable (net e) p = Inr False"
  shows "snd (findAvailablePort (net e) DEFAULT_PORT MAX_PORT_ATTEMPTS) =
           Inl (NoPortAvailable 7861 7870) \<and>
         outcome (start rv e this) =
           Rejected (NoPortAvailable DEFAULT_PORT (DEFAULT_PORT + MAX_PORT_ATTEMPTS - 1)) \<and>
         spawned (start rv e this) = [] \<and>
         mgr (start rv e this) = this \<and>
         timeout (start rv e this) = None \<and>
         probed (start rv e this) = [7861..7870] \<and>
         run rv evs (start rv e this) = start rv e this"
proof -
  from assms
  have "\<forall>q. DEFAULT_PORT \<le> q \<and> q < DEFAULT_PORT + MAX_PORT_ATTEMPTS
          \<longrightarrow> isPortAvailable (net e) q = Inr False"
    by simp
  from findAvailablePort_exhausted [OF this]
  have fa: "findAvailablePort (net e) DEFAULT_PORT MAX_PORT_ATTEMPTS =
     ([7861..7870], Inl (NoPortAvailable 7861 7870))"
    by (simp add: DEFAULT_PORT_def MAX_PORT_ATTEMPTS_def)
  have st: "start rv e this =
     \<lparr>mgr = this, outcome = Rejected (NoPortAvailable 7861 7870), timeout = None,
      probed = [7861..7870], spawned = []\<rparr>"
    by (cases rv) (simp_all add: start_def start_A_def start_B_def fa)
  have "run rv evs (start rv e this) = start rv e this"
    by (rule run_nothing_spawned) (simp add: st)
  with fa st show ?thesis
    by (simp add: DEFAULT_PORT_def MAX_PORT_ATTEMPTS_def)
qed

lemma net_busy_unavailable:
  "\<forall>p\<in>{DEFAULT_PORT..<DEFAULT_PORT + MAX_PORT_ATTEMPTS}.
     isPortAvailable (net env_busy) p = Inr False"
  by (simp add: env_busy_def env_dev_def net_busy_def isPortAvailable_def validPort_def
      DEFAULT_PORT_def MAX_PORT_ATTEMPTS_def)

theorem start_all_ports_occupied_witness:
  "outcome (start RevA env_busy constructor) = Rejected (NoPortAvailable 7861 7870) \<and>
   outcome (start RevB env_busy constructor) = Rejected (NoPortAvailable 7861 7870) \<and>
   spawned (start RevA env_busy constructor) = [] \<and>
   spawned (start RevB env_busy constructor) = [] \<and>
   process (mgr (start RevA env_busy constructor)) = None \<and>
   process (mgr (start RevB env_busy constructor)) = None"
  using start_all_ports_occupied [OF net_busy_unavailable, of RevA constructor "[]"]
    start_all_ports_occupied [OF net_busy_unavailable, of RevB constructor "[]"]
  by (simp add: DEFAULT_PORT_def MAX_PORT_ATTEMPTS_def constructor_def)

subsection \<open>\<open>stop\<close>\<close>

text \<open>
  Claim C3. In every state of the object and whatever tree-kill reports, the promise of
  \<open>stop\<close> is resolved, never rejected. With a process handle, \<open>stop\<close> calls tree-kill
  once, on the pid of the handle with \<open>SIGTERM\<close>, and afterwards the handle is null and
  the ready flag false, also when tree-kill reported an error; the port is kept. Without
  a handle, \<open>stop\<close> calls nothing and leaves the object as it was.
\<close>

theorem stop_always_resolves:
  "stop_outcome (stop kill this) = Resolved () \<and>
   (case process this of
      Some child \<Rightarrow>
        kills (stop kill this) = [(pid child, ''SIGTERM'')] \<and>
        this_after (stop kill this) = this\<lparr>process := None, isReady := False\<rparr> \<and>
        process (this_after (stop kill this)) = None \<and>
        isReady (this_after (stop kill this)) = False
    | None \<Rightarrow>
        kills (stop kill this) = [] \<and> this_after (stop kill this) = this)"
  by (simp add: stop_def Let_def split: option.split)

theorem stop_always_resolves_witness:
  "stop_outcome (stop kill_fails
     \<lparr>process = Some (ChildProcess (Some 4242)), port = 7863, isReady = True\<rparr>) = Resolved () \<and>
   kills (stop kill_fails
     \<lparr>process = Some (ChildProcess (Some 4242)), port = 7863, isReady = True\<rparr>) =
     [(Some 4242, ''SIGTERM'')] \<and>
   errors_logged (stop kill_fails
     \<lparr>process = Some (ChildProcess (Some 4242)), port = 7863, isReady = True\<rparr>) =
     [''kill ESRCH''] \<and>
   this_after (stop kill_fails
     \<lparr>process = Some (ChildProcess (Some 4242)), port = 7863, isReady = True\<rparr>) =
     \<lparr>process = None, port = 7863, isReady = False\<rparr> \<and>
   stop_outcome (stop kill_fails constructor) = Resolved () \<and>
   kills (stop kill_fails constructor) = [] \<and>
   this_after (stop kill_fails constructor) = constructor"
  using stop_always_resolves [of kill_fails
      "\<lparr>process = Some (ChildProcess (Some 4242)), port = 7863, isReady = True\<rparr>"]
    stop_always_resolves [of kill_fails constructor]
  by (simp add: constructor_def stop_def kill_fails_def)

subsection \<open>What \<open>start\<close> leaves behind when it spawns\<close>

lemma start_A_spawns:
  assumes "snd (findAvailablePort (net e) DEFAULT_PORT MAX_PORT_ATTEMPTS) = Inr p"
  shows "start_A e this =
     \<lparr>mgr = this\<lparr>port := p, process := Some (spawn e
              \<lparr>command = getBackendPath e, args = [''-u''],
               stdio = [Pipe, Pipe, Pipe], windowsHide = True\<rparr>)\<rparr>,
      outcome = Pending, timeout = Some 30000,
      probed = fst (findAvailablePort (net e) DEFAULT_PORT MAX_PORT_ATTEMPTS),
      spawned = [\<lparr>command = getBackendPath e, args = [''-u''],
                  stdio = [Pipe, Pipe, Pipe], windowsHide = True\<rparr>]\<rparr>"
  using assms
  by (cases "findAvailablePort (net e) DEFAULT_PORT MAX_PORT_ATTEMPTS")
     (simp add: start_A_def Let_def)

lemma start_B_spawns:
  assumes "snd (findAvailablePort (net e) DEFAULT_PORT MAX_PORT_ATTEMPTS) = Inr p"
    and "existsSync e (getBackendPath e)"
  shows "start_B e this =
     \<lparr>mgr = this\<lparr>port := p, process := Some (spawn e
              \<lparr>command = getBackendPath e, args = [''-u'', ''--port'', toString p],
               stdio = [Pipe, Pipe, Pipe], windowsHide = True\<rparr>)\<rparr>,
      outcome = Pending, timeout = Some 60000,
      probed = fst (findAvailablePort (net e) DEFAULT_PORT MAX_PORT_ATTEMPTS),
      spawned = [\<lparr>command = getBackendPath e, args = [''-u'', ''--port'', toString p],
                  stdio = [Pipe, Pipe, Pipe], windowsHide = True\<rparr>]\<rparr>"
  using assms
  by (cases "findAvailablePort (net e) DEFAULT_PORT MAX_PORT_ATTEMPTS")
     (simp add: start_B_def Let_def)

lemma start_B_missing:
  assumes "snd (findAvailablePort (net e) DEFAULT_PORT MAX_PORT_ATTEMPTS) = Inr p"
    and "\<not> existsSync e (getBackendPath e)"
  shows "start_B e this =
     \<lparr>mgr = this\<lparr>port := p\<rparr>,
      outcome = Rejected (BackendNotFound (getBackendPath e) (helpMsg (\<not> isPackaged e))),
      timeout = None,
      probed = fst (findAvailablePort (net e) DEFAULT_PORT MAX_PORT_ATTEMPTS),
      spawned = []\<rparr>"
  using assms
  by (cases "findAvailablePort (net e) DEFAULT_PORT MAX_PORT_ATTEMPTS")
     (simp add: start_B_def Let_def)

text \<open>
  A call of \<open>start\<close> that reaches \<open>spawn\<close>: the promise is pending, the timer is set, the
  handle is stored, and the port of the object is the one the allocator returned.
\<close>

lemma start_spawns:
  assumes "snd (findAvailablePort (net e) DEFAULT_PORT MAX_PORT_ATTEMPTS) = Inr p"
    and "rv = RevB \<longrightarrow> existsSync e (getBackendPath e)"
  shows "outcome (start rv e this) = Pending"
    and "timeout (start rv e this) = Some (case rv of RevA \<Rightarrow> 30000 | RevB \<Rightarrow> 60000)"
    and "spawned (start rv e this) \<noteq> []"
    and "port (mgr (start rv e this)) = p"
    and "process (mgr (start rv e this)) = Some (spawn e (hd (spawned (start rv e this))))"
    and "isReady (mgr (start rv e this)) = isReady this"
  using assms
  by (cases rv; simp add: start_def start_A_spawns start_B_spawns)+

subsection \<open>Single events\<close>

lemma onStdout_A_not_ready: "\<not> ready_chunk RevA chunk \<Longrightarrow> onStdout_A chunk st = st"
  by (simp add: onStdout_A_def Let_def)

lemma onStdout_B_not_ready: "\<not> ready_chunk RevB chunk \<Longrightarrow> onStdout_B chunk st = st"
  by (auto simp add: onStdout_B_def Let_def)

lemma onStdout_A_ready:
  "ready_chunk RevA chunk \<Longrightarrow>
     onStdout_A chunk st =
       st\<lparr>mgr := (mgr st)\<lparr>port := (case match_localhost chunk of
                                       Some ds \<Rightarrow> parseInt ds | None \<Rightarrow> port (mgr st)),
                            isReady := True\<rparr>,
          timeout := None,
          outcome := resolve (case match_localhost chunk of
                                Some ds \<Rightarrow> parseInt ds | None \<Rightarrow> port (mgr st)) (outcome st)\<rparr>"
  by (cases "match_localhost chunk") (auto simp add: onStdout_A_def Let_def)

lemma onStdout_B_ready:
  "ready_chunk RevB chunk \<Longrightarrow>
     onStdout_B chunk st =
       st\<lparr>mgr := (mgr st)\<lparr>port := (case match_localhost chunk of
                                       Some ds \<Rightarrow> parseInt ds | None \<Rightarrow> port (mgr st)),
                            isReady := True\<rparr>,
          timeout := None,
          outcome := resolve (case match_localhost chunk of
                                Some ds \<Rightarrow> parseInt ds | None \<Rightarrow> port (mgr st)) (outcome st)\<rparr>"
  by (cases "match_localhost chunk") (auto simp add: onStdout_B_def Let_def)

lemma deliver_ready_chunk:
  assumes "spawned st \<noteq> []" and "ready_chunk rv chunk"
  shows "deliver rv (StdoutData chunk) st =
       st\<lparr>mgr := (mgr st)\<lparr>port := (case match_localhost chunk of
                                       Some ds \<Rightarrow> parseInt ds | None \<Rightarrow> port (mgr st)),
                            isReady := True\<rparr>,
          timeout := None,
          outcome := resolve (case match_localhost chunk of
                                Some ds \<Rightarrow> parseInt ds | None \<Rightarrow> port (mgr st)) (outcome st)\<rparr>"
  using assms by (cases rv) (simp_all add: onStdout_A_ready onStdout_B_ready)

lemma deliver_other_chunk:
  "\<not> ready_chunk rv chunk \<Longrightarrow> deliver rv (StdoutData chunk) st = st"
  by (cases rv) (simp_all add: onStdout_A_not_ready onStdout_B_not_ready)

lemma deliver_exit:
  "spawned st \<noteq> [] \<Longrightarrow> deliver rv (ProcExit code) st = st\<lparr>mgr := (mgr st)\<lparr>isReady := False\<rparr>\<rparr>"
  by (simp add: onExit_def)

lemma deliver_silent:
  assumes "silent rv ev"
  shows "deliver rv ev st = st \<or> deliver rv ev st = st\<lparr>mgr := (mgr st)\<lparr>isReady := False\<rparr>\<rparr>"
proof (cases ev)
  case (StdoutData chunk)
  with assms show ?thesis using deliver_other_chunk [of rv chunk st] by simp
next
  case (ProcExit code)
  then show ?thesis by (cases "spawned st = []") (simp_all add: onExit_def)
qed (use assms in simp_all)

text \<open>Silent events change nothing but, at most, the ready flag.\<close>

lemma run_silent:
  assumes "list_all (silent rv) evs"
  shows "\<exists>b. run rv evs st = st\<lparr>mgr := (mgr st)\<lparr>isReady := b\<rparr>\<rparr>"
  using assms
proof (induction evs arbitrary: st)
  case Nil
  show ?case by (rule exI [of _ "isReady (mgr st)"]) simp
next
  case (Cons ev evs)
  from Cons.prems have sv: "silent rv ev" and rest: "list_all (silent rv) evs" by simp_all
  from Cons.IH [OF rest] obtain b where
    b: "run rv evs (deliver rv ev st) = (deliver rv ev st)\<lparr>mgr := (mgr (deliver rv ev st))\<lparr>isReady := b\<rparr>\<rparr>"
    by blast
  from deliver_silent [OF sv, of st] show ?case
  proof
    assume "deliver rv ev st = st"
    with b show ?thesis by auto
  next
    assume "deliver rv ev st = st\<lparr>mgr := (mgr st)\<lparr>isReady := False\<rparr>\<rparr>"
    with b show ?thesis by auto
  qed
qed

lemma run_append: "run rv (xs @ ys) st = run rv ys (run rv xs st)"
  by (induction xs arbitrary: st) simp_all

text \<open>A settled promise stays as it is.\<close>

lemma resolve_settled: "p \<noteq> Pending \<Longrightarrow> resolve v p = p"
  by (cases p) simp_all

lemma reject_settled: "p \<noteq> Pending \<Longrightarrow> reject err p = p"
  by (cases p) simp_all

lemma deliver_settled:
  assumes "outcome st \<noteq> Pending"
  shows "outcome (deliver rv ev st) = outcome st"
proof (cases ev)
  case (StdoutData chunk)
  show ?thesis
  proof (cases "ready_chunk rv chunk \<and> spawned st \<noteq> []")
    case True
    with assms StdoutData show ?thesis
      by (simp add: deliver_ready_chunk resolve_settled del: deliver.simps)
  next
    case False
    then show ?thesis using StdoutData deliver_other_chunk [of rv chunk st]
      by (cases "spawned st = []") auto
  qed
next
  case (ProcError message)
  with assms show ?thesis by (simp add: onError_def reject_settled)
next
  case TimerFired
  with assms show ?thesis
    by (cases rv)
       (simp_all add: onTimeout_A_def onTimeout_B_def reject_settled split: option.split)
qed (simp_all add: onExit_def)

lemma run_settled: "outcome st \<noteq> Pending \<Longrightarrow> outcome (run rv evs st) = outcome st"
proof (induction evs arbitrary: st)
  case Nil
  show ?case by simp
next
  case (Cons ev evs)
  from Cons.prems have "outcome (deliver rv ev st) \<noteq> Pending"
    by (simp only: deliver_settled not_False_eq_True)
  from Cons.IH [OF this] Cons.prems show ?case
    by (simp add: deliver_settled del: deliver.simps)
qed

subsection \<open>The startup timer\<close>

lemma alloc_env_dev:
  "snd (findAvailablePort (net env_dev) DEFAULT_PORT MAX_PORT_ATTEMPTS) = Inr 7863"
  by (simp add: env_dev_def DEFAULT_PORT_def MAX_PORT_ATTEMPTS_def findAvailablePort_net_7863)

lemma exists_env_dev: "existsSync env_dev (getBackendPath env_dev)"
  by (simp add: env_dev_def exists_all_def)

lemma toString_7863: "toString 7863 = ''7863''"
  by (simp add: toString_def digit_char_def)

lemma start_A_env_dev:
  "start RevA env_dev constructor =
     \<lparr>mgr = \<lparr>process = Some (ChildProcess (Some 4242)), port = 7863, isReady = False\<rparr>,
      outcome = Pending, timeout = Some 30000, probed = [7861, 7862, 7863],
      spawned = [\<lparr>command = ''/src/../../python-dist/backend.exe'', args = [''-u''],
                  stdio = [Pipe, Pipe, Pipe], windowsHide = True\<rparr>]\<rparr>"
  by (simp add: start_def start_A_spawns [OF alloc_env_dev])
     (simp add: env_dev_def constructor_def DEFAULT_PORT_def MAX_PORT_ATTEMPTS_def
       findAvailablePort_net_7863 getBackendPath_def join_slash_def spawn_4242_def)

lemma start_B_env_dev:
  "start RevB env_dev constructor =
     \<lparr>mgr = \<lparr>process = Some (ChildProcess (Some 4242)), port = 7863, isReady = False\<rparr>,
      outcome = Pending, timeout = Some 60000, probed = [7861, 7862, 7863],
      spawned = [\<lparr>command = ''/src/../../python-dist/backend.exe'',
                  args = [''-u'', ''--port'', ''7863''],
                  stdio = [Pipe, Pipe, Pipe], windowsHide = True\<rparr>]\<rparr>"
  by (simp add: start_def start_B_spawns [OF alloc_env_dev exists_env_dev] toString_7863)
     (simp add: env_dev_def constructor_def DEFAULT_PORT_def MAX_PORT_ATTEMPTS_def
       findAvailablePort_net_7863 getBackendPath_def join_slash_def spawn_4242_def)

text \<open>
  Silent events after a call of \<open>start\<close> that spawned leave the promise pending, the
  timer set and the handle stored.
\<close>

lemma run_silent_start:
  assumes "snd (findAvailablePort (net e) DEFAULT_PORT MAX_PORT_ATTEMPTS) = Inr p"
    and "rv = RevB \<longrightarrow> existsSync e (getBackendPath e)"
    and "list_all (silent rv) evs"
  shows "outcome (run rv evs (start rv e this)) = Pending"
    and "timeout (run rv evs (start rv e this)) =
           Some (case rv of RevA \<Rightarrow> 30000 | RevB \<Rightarrow> 60000)"
    and "spawned (run rv evs (start rv e this)) \<noteq> []"
    and "port (mgr (run rv evs (start rv e this))) = p"
    and "process (mgr (run rv evs (start rv e this))) = process (mgr (start rv e this))"
proof -
  from run_silent [OF assms(3), of "start rv e this"] obtain b where
    "run rv evs (start rv e this) =
       (start rv e this)\<lparr>mgr := (mgr (start rv e this))\<lparr>isReady := b\<rparr>\<rparr>"
    by blast
  with start_spawns [OF assms(1,2), of this]
  show "outcome (run rv evs (start rv e this)) = Pending"
    and "timeout (run rv evs (start rv e this)) =
           Some (case rv of RevA \<Rightarrow> 30000 | RevB \<Rightarrow> 60000)"
    and "spawned (run rv evs (start rv e this)) \<noteq> []"
    and "port (mgr (run rv evs (start rv e this))) = p"
    and "process (mgr (run rv evs (start rv e this))) = process (mgr (start rv e this))"
    by simp_all
qed

lemma deliver_timer:
  assumes "spawned st \<noteq> []" and "timeout st = Some ms" and "outcome st = Pending"
  shows "deliver rv TimerFired st =
     st\<lparr>timeout := None,
        outcome := Rejected (StartupTimeout (case rv of RevA \<Rightarrow> 30 | RevB \<Rightarrow> 60))\<rparr>"
  using assms by (cases rv) (simp_all add: onTimeout_A_def onTimeout_B_def)

lemma timer_after_silent:
  assumes "snd (findAvailablePort (net e) DEFAULT_PORT MAX_PORT_ATTEMPTS) = Inr p"
    and "rv = RevB \<longrightarrow> existsSync e (getBackendPath e)"
    and "list_all (silent rv) evs"
  shows "run rv (evs @ [TimerFired]) (start rv e this) =
     (run rv evs (start rv e this))\<lparr>timeout := None,
        outcome := Rejected (StartupTimeout (case rv of RevA \<Rightarrow> 30 | RevB \<Rightarrow> 60))\<rparr>"
  using run_silent_start(1,2,3) [OF assms, of this]
  by (simp add: run_append deliver_timer del: deliver.simps)

text \<open>
  Claim C5, as the code has it. Take a call of \<open>start\<close> that spawns the child: the port
  allocation succeeds and, in revision B, the executable exists. The call sets one timer,
  of 60000 ms in revision B and of 30000 ms in revision A. If only silent events come
  before the timer fires (no readiness chunk and no event \<open>error\<close>), the promise is
  pending until then and is rejected with the startup timeout error when the timer
  fires, whatever comes later.
\<close>

theorem start_times_out:
  assumes "snd (findAvailablePort (net e) DEFAULT_PORT MAX_PORT_ATTEMPTS) = Inr p"
    and "rv = RevB \<longrightarrow> existsSync e (getBackendPath e)"
    and "list_all (silent rv) evs"
  shows "timeout (start rv e this) = Some (case rv of RevA \<Rightarrow> 30000 | RevB \<Rightarrow> 60000) \<and>
         outcome (run rv evs (start rv e this)) = Pending \<and>
         outcome (run rv (evs @ TimerFired # later) (start rv e this)) =
           Rejected (StartupTimeout (case rv of RevA \<Rightarrow> 30 | RevB \<Rightarrow> 60))"
proof -
  have "outcome (run rv (evs @ [TimerFired]) (start rv e this)) =
          Rejected (StartupTimeout (case rv of RevA \<Rightarrow> 30 | RevB \<Rightarrow> 60))"
    by (simp add: timer_after_silent [OF assms])
  then have "outcome (run rv later (run rv (evs @ [TimerFired]) (start rv e this))) =
          Rejected (StartupTimeout (case rv of RevA \<Rightarrow> 30 | RevB \<Rightarrow> 60))"
    by (simp add: run_settled)
  moreover have "evs @ TimerFired # later = (evs @ [TimerFired]) @ later" by simp
  ultimately have "outcome (run rv (evs @ TimerFired # later) (start rv e this)) =
          Rejected (StartupTimeout (case rv of RevA \<Rightarrow> 30 | RevB \<Rightarrow> 60))"
    by (simp only: run_append)
  with start_spawns(2) [OF assms(1,2), of this] run_silent_start(1) [OF assms, of this]
  show ?thesis by simp
qed

theorem start_times_out_witness:
  "timeout (start RevB env_dev constructor) = Some 60000 \<and>
   outcome (run RevB [StderrData ''loading'', StdoutData ''hello''] (start RevB env_dev constructor))
     = Pending \<and>
   outcome (run RevB ([StderrData ''loading'', StdoutData ''hello''] @
       TimerFired # [StdoutData ''Running on http://localhost:7899''])
     (start RevB env_dev constructor)) = Rejected (StartupTimeout 60)"
proof -
  have "RevB = RevB \<longrightarrow> existsSync env_dev (getBackendPath env_dev)"
    by (simp add: exists_env_dev)
  moreover have "list_all (silent RevB) [StderrData ''loading'', StdoutData ''hello'']"
    by simp
  ultimately show ?thesis
    using start_times_out [OF alloc_env_dev, of RevB
        "[StderrData ''loading'', StdoutData ''hello'']" constructor
        "[StdoutData ''Running on http://localhost:7899'']"]
    by simp
qed

text \<open>
  The claim as the specification words it fails: the timer of backend-manager.js is 30
  seconds, and in either revision an event \<open>error\<close> that precedes the timer rejects the
  promise with the spawn error although no readiness signal was seen.
\<close>

theorem start_timeout_60_counterexample:
  "timeout (start RevA env_dev constructor) = Some 30000 \<and>
   timeout (start RevA env_dev constructor) \<noteq> Some 60000 \<and>
   outcome (run RevA [TimerFired] (start RevA env_dev constructor)) =
     Rejected (StartupTimeout 30) \<and>
   outcome (run RevB [ProcError ''spawn EACCES'', TimerFired] (start RevB env_dev constructor)) =
     Rejected (SpawnFailed ''spawn EACCES'')"
  by (simp add: start_A_env_dev start_B_env_dev onTimeout_A_def onError_def)

subsection \<open>The handle after a timeout\<close>

text \<open>
  Claim C7, as the code has it. Take a call of \<open>start\<close> that spawns the child, followed
  by silent events only (in particular by no output at all) and then by the timer. The
  promise is rejected with the startup timeout error, and the object still holds the
  handle that \<open>spawn\<close> returned: the callback of the timer only rejects. A call of
  \<open>stop\<close> after that is therefore not a no-op: it calls tree-kill on the pid of that
  handle with \<open>SIGTERM\<close>, clears the handle and the ready flag, and resolves.
\<close>

theorem timeout_keeps_handle:
  assumes "snd (findAvailablePort (net e) DEFAULT_PORT MAX_PORT_ATTEMPTS) = Inr p"
    and "rv = RevB \<longrightarrow> existsSync e (getBackendPath e)"
    and "list_all (silent rv) evs"
    and "st = run rv (evs @ [TimerFired]) (start rv e this)"
  shows "outcome st = Rejected (StartupTimeout (case rv of RevA \<Rightarrow> 30 | RevB \<Rightarrow> 60)) \<and>
         process (mgr st) = Some (spawn e (hd (spawned (start rv e this)))) \<and>
         kills (stop kill (mgr st)) =
           [(pid (spawn e (hd (spawned (start rv e this)))), ''SIGTERM'')] \<and>
         process (this_after (stop kill (mgr st))) = None \<and>
         isReady (this_after (stop kill (mgr st))) = False \<and>
         stop_outcome (stop kill (mgr st)) = Resolved ()"
proof -
  from assms(4) timer_after_silent [OF assms(1-3), of this]
  have st: "st = (run rv evs (start rv e this))\<lparr>timeout := None,
        outcome := Rejected (StartupTimeout (case rv of RevA \<Rightarrow> 30 | RevB \<Rightarrow> 60))\<rparr>"
    by simp
  then have "process (mgr st) = process (mgr (run rv evs (start rv e this)))" by simp
  with run_silent_start(5) [OF assms(1-3), of this] start_spawns(5) [OF assms(1,2), of this]
  have pr: "process (mgr st) = Some (spawn e (hd (spawned (start rv e this))))" by simp
  from st have "outcome st = Rejected (StartupTimeout (case rv of RevA \<Rightarrow> 30 | RevB \<Rightarrow> 60))"
    by simp
  with pr show ?thesis by (simp add: stop_def Let_def)
qed

theorem timeout_keeps_handle_witness:
  "outcome (run RevB ([] @ [TimerFired]) (start RevB env_dev constructor)) =
     Rejected (StartupTimeout 60) \<and>
   process (mgr (run RevB ([] @ [TimerFired]) (start RevB env_dev constructor))) =
     Some (ChildProcess (Some 4242)) \<and>
   kills (stop kill_ok (mgr (run RevB ([] @ [TimerFired]) (start RevB env_dev constructor)))) =
     [(Some 4242, ''SIGTERM'')] \<and>
   process (this_after
     (stop kill_ok (mgr (run RevB ([] @ [TimerFired]) (start RevB env_dev constructor))))) = None"
proof -
  have "RevB = RevB \<longrightarrow> existsSync env_dev (getBackendPath env_dev)"
    by (simp add: exists_env_dev)
  moreover have "list_all (silent RevB) []" by simp
  ultimately show ?thesis
    using timeout_keeps_handle [OF alloc_env_dev _ _ refl, of RevB "[]" constructor kill_ok]
    by (simp add: start_B_env_dev env_dev_def spawn_4242_def)
qed

text \<open>
  The claim as the specification words it fails in both revisions: after the timeout the
  handle is still there and \<open>stop\<close> sends the signal.
\<close>

theorem timeout_no_handle_counterexample:
  "outcome (run RevA [TimerFired] (start RevA env_dev constructor)) =
     Rejected (StartupTimeout 30) \<and>
   process (mgr (run RevA [TimerFired] (start RevA env_dev constructor))) =
     Some (ChildProcess (Some 4242)) \<and>
   kills (stop kill_ok (mgr (run RevA [TimerFired] (start RevA env_dev constructor)))) =
     [(Some 4242, ''SIGTERM'')] \<and>
   outcome (run RevB [TimerFired] (start RevB env_dev constructor)) =
     Rejected (StartupTimeout 60) \<and>
   process (mgr (run RevB [TimerFired] (start RevB env_dev constructor))) =
     Some (ChildProcess (Some 4242)) \<and>
   kills (stop kill_ok (mgr (run RevB [TimerFired] (start RevB env_dev constructor)))) =
     [(Some 4242, ''SIGTERM'')]"
  by (simp add: start_A_env_dev start_B_env_dev onTimeout_A_def onTimeout_B_def stop_def)

subsection \<open>A missing executable\<close>

lemma alloc_env_missing:
  "snd (findAvailablePort (net env_missing) DEFAULT_PORT MAX_PORT_ATTEMPTS) = Inr 7863"
  by (simp add: env_missing_def env_dev_def DEFAULT_PORT_def MAX_PORT_ATTEMPTS_def
      findAvailablePort_net_7863)

lemma missing_env_missing: "\<not> existsSync env_missing (getBackendPath env_missing)"
  by (simp add: env_missing_def exists_none_def)

text \<open>
  Claim C6, as the code has it. In revision B, when the port allocation succeeds and
  \<open>fs.existsSync\<close> denies the resolved path, the promise is rejected with the error
  that names the path and carries the hint, \<open>spawn\<close> is not called and no handle is
  stored; no later event changes this. The hint is the build instruction when the
  application is not packaged and the advice to reinstall when it is, and the two differ.
\<close>

theorem start_B_backend_not_found:
  assumes "snd (findAvailablePort (net e) DEFAULT_PORT MAX_PORT_ATTEMPTS) = Inr p"
    and "\<not> existsSync e (getBackendPath e)"
  shows "outcome (start RevB e this) =
           Rejected (BackendNotFound (getBackendPath e) (helpMsg (\<not> isPackaged e))) \<and>
         spawned (start RevB e this) = [] \<and>
         process (mgr (start RevB e this)) = process this \<and>
         timeout (start RevB e this) = None \<and>
         run RevB evs (start RevB e this) = start RevB e this \<and>
         helpMsg True \<noteq> helpMsg False"
proof -
  have st: "start RevB e this =
     \<lparr>mgr = this\<lparr>port := p\<rparr>,
      outcome = Rejected (BackendNotFound (getBackendPath e) (helpMsg (\<not> isPackaged e))),
      timeout = None,
      probed = fst (findAvailablePort (net e) DEFAULT_PORT MAX_PORT_ATTEMPTS),
      spawned = []\<rparr>"
    by (simp add: start_def start_B_missing [OF assms])
  have "run RevB evs (start RevB e this) = start RevB e this"
    by (rule run_nothing_spawned) (simp add: st)
  moreover have "helpMsg True \<noteq> helpMsg False"
    by (simp add: helpMsg_def)
  ultimately show ?thesis by (simp add: st)
qed

theorem start_B_backend_not_found_witness:
  "outcome (start RevB env_missing constructor) =
     Rejected (BackendNotFound ''/src/../../python-dist/backend.exe'' (helpMsg True)) \<and>
   spawned (start RevB env_missing constructor) = [] \<and>
   process (mgr (start RevB env_missing constructor)) = None"
  using start_B_backend_not_found [OF alloc_env_missing missing_env_missing, of constructor "[]"]
  by (simp add: constructor_def env_missing_def env_dev_def getBackendPath_def join_slash_def)

text \<open>
  The claim as the specification words it fails: backend-manager.js has no such check
  and calls \<open>spawn\<close> on the missing path (the failure then arrives as the event
  \<open>error\<close>), and in revision B a call whose ports are all taken fails with the
  allocator's error whether or not the executable exists.
\<close>

theorem backend_not_found_counterexample:
  "existsSync env_missing (getBackendPath env_missing) = False \<and>
   spawned (start RevA env_missing constructor) =
     [\<lparr>command = ''/src/../../python-dist/backend.exe'', args = [''-u''],
       stdio = [Pipe, Pipe, Pipe], windowsHide = True\<rparr>] \<and>
   outcome (start RevA env_missing constructor) = Pending \<and>
   outcome (run RevA [ProcError ''spawn ENOENT''] (start RevA env_missing constructor)) =
     Rejected (SpawnFailed ''spawn ENOENT'') \<and>
   existsSync env_busy_missing
     (getBackendPath env_busy_missing) = False \<and>
   outcome (start RevB env_busy_missing constructor) =
     Rejected (NoPortAvailable 7861 7870)"
proof -
  have a: "start RevA env_missing constructor =
     \<lparr>mgr = \<lparr>process = Some (ChildProcess (Some 4242)), port = 7863, isReady = False\<rparr>,
      outcome = Pending, timeout = Some 30000, probed = [7861, 7862, 7863],
      spawned = [\<lparr>command = ''/src/../../python-dist/backend.exe'', args = [''-u''],
                  stdio = [Pipe, Pipe, Pipe], windowsHide = True\<rparr>]\<rparr>"
    by (simp add: start_def start_A_spawns [OF alloc_env_missing])
       (simp add: env_missing_def env_dev_def constructor_def DEFAULT_PORT_def
         MAX_PORT_ATTEMPTS_def findAvailablePort_net_7863 getBackendPath_def join_slash_def
         spawn_4242_def)
  have b: "outcome (start RevB env_busy_missing constructor) =
     Rejected (NoPortAvailable 7861 7870)"
    by (simp add: start_def start_B_def env_busy_missing_def env_busy_def env_dev_def
        DEFAULT_PORT_def MAX_PORT_ATTEMPTS_def findAvailablePort_net_busy)
  have c: "existsSync env_busy_missing
     (getBackendPath env_busy_missing) = False"
    by (simp add: env_busy_missing_def exists_none_def)
  from missing_env_missing show ?thesis
    by (simp add: a b c onError_def)
qed

subsection \<open>The arguments of \<open>spawn\<close>\<close>

lemma digit_val_digit_char: "n < 10 \<Longrightarrow> digit_val (digit_char n) = int n"
  by (auto simp add: less_Suc_eq eval_nat_numeral digit_val_def digit_char_def)

lemma parseInt_snoc: "parseInt (ds @ [c]) = 10 * parseInt ds + digit_val c"
  by (simp add: parseInt_def)

declare digits_of.simps [simp del]

text \<open>\<open>parseInt\<close> reads back what \<open>toString\<close> writes for a number that is not negative.\<close>

lemma parseInt_digits_of: "parseInt (digits_of n) = int n"
proof (induction n rule: digits_of.induct)
  case (1 n)
  show ?case
  proof (cases "n < 10")
    case True
    then show ?thesis
      by (subst digits_of.simps) (simp add: parseInt_def digit_val_digit_char)
  next
    case False
    have "parseInt (digits_of n) = 10 * parseInt (digits_of (n div 10)) + digit_val (digit_char (n mod 10))"
      using False by (subst digits_of.simps) (simp add: parseInt_snoc)
    also have "\<dots> = 10 * int (n div 10) + int (n mod 10)"
      using "1.IH" [OF False] by (simp add: digit_val_digit_char)
    also have "\<dots> = int (10 * (n div 10) + n mod 10)"
      by (simp only: of_nat_add of_nat_mult of_nat_numeral)
    also have "\<dots> = int n"
      by (simp only: mult_div_mod_eq)
    finally show ?thesis .
  qed
qed

lemma parseInt_toString: "0 \<le> n \<Longrightarrow> parseInt (toString n) = n"
  by (simp add: toString_def parseInt_digits_of)

text \<open>
  Claim C8, as the code has it. When the port allocation succeeds with the port \<open>p\<close>
  and, in revision B, the executable exists, \<open>start\<close> calls \<open>spawn\<close> once, on the
  resolved path, with the three standard streams piped and the window hidden. Revision B
  passes the arguments \<open>-u\<close>, \<open>--port\<close> and the decimal text of \<open>p\<close>; revision A
  passes \<open>-u\<close> alone. In both, \<open>p\<close> is stored as the port of the object.
\<close>

theorem start_spawn_call:
  assumes "snd (findAvailablePort (net e) DEFAULT_PORT MAX_PORT_ATTEMPTS) = Inr p"
    and "rv = RevB \<longrightarrow> existsSync e (getBackendPath e)"
  shows "spawned (start rv e this) =
           [\<lparr>command = getBackendPath e,
             args = (case rv of RevA \<Rightarrow> [''-u''] | RevB \<Rightarrow> [''-u'', ''--port'', toString p]),
             stdio = [Pipe, Pipe, Pipe], windowsHide = True\<rparr>] \<and>
         port (mgr (start rv e this)) = p \<and>
         parseInt (toString p) = p"
proof -
  from assms(1) have "findAvailablePort_loop (net e) DEFAULT_PORT MAX_PORT_ATTEMPTS 0 []
      = (fst (findAvailablePort (net e) DEFAULT_PORT MAX_PORT_ATTEMPTS), Inr p)"
    by (cases "findAvailablePort (net e) DEFAULT_PORT MAX_PORT_ATTEMPTS")
       (simp add: findAvailablePort_def)
  from loop_found [OF this] have "DEFAULT_PORT \<le> p" by simp
  then have "0 \<le> p" by (simp add: DEFAULT_PORT_def)
  then have "parseInt (toString p) = p" by (rule parseInt_toString)
  with assms show ?thesis
    by (cases rv) (simp_all add: start_def start_A_spawns start_B_spawns)
qed

theorem start_spawn_call_witness:
  "spawned (start RevB env_dev constructor) =
     [\<lparr>command = ''/src/../../python-dist/backend.exe'',
       args = [''-u'', ''--port'', ''7863''],
       stdio = [Pipe, Pipe, Pipe], windowsHide = True\<rparr>] \<and>
   port (mgr (start RevB env_dev constructor)) = 7863"
proof -
  have "RevB = RevB \<longrightarrow> existsSync env_dev (getBackendPath env_dev)"
    by (simp add: exists_env_dev)
  then show ?thesis
    using start_spawn_call [OF alloc_env_dev, of RevB constructor]
    by (simp add: toString_7863 env_dev_def getBackendPath_def join_slash_def)
qed

text \<open>
  The claim as the specification words it fails: backend-manager.js does not pass the
  port, and in revision B a successful allocation is followed by no call of \<open>spawn\<close>
  when the executable is missing.
\<close>

theorem spawn_port_argument_counterexample:
  "snd (findAvailablePort (net env_dev) DEFAULT_PORT MAX_PORT_ATTEMPTS) = Inr 7863 \<and>
   map args (spawned (start RevA env_dev constructor)) = [[''-u'']] \<and>
   snd (findAvailablePort (net env_missing) DEFAULT_PORT MAX_PORT_ATTEMPTS) = Inr 7863 \<and>
   spawned (start RevB env_missing constructor) = []"
proof -
  have "spawned (start RevB env_missing constructor) = []"
    by (simp add: start_def start_B_missing [OF alloc_env_missing missing_env_missing])
  then show ?thesis
    by (simp add: alloc_env_dev alloc_env_missing start_A_env_dev)
qed

subsection \<open>The port a readiness chunk announces\<close>

lemma first_ready_chunk:
  assumes "snd (findAvailablePort (net e) DEFAULT_PORT MAX_PORT_ATTEMPTS) = Inr p"
    and "rv = RevB \<longrightarrow> existsSync e (getBackendPath e)"
    and "list_all (silent rv) evs"
    and "ready_chunk rv chunk"
    and "q = (case match_localhost chunk of Some ds \<Rightarrow> parseInt ds | None \<Rightarrow> p)"
  shows "outcome (run rv (evs @ StdoutData chunk # later) (start rv e this)) = Resolved q"
    and "port (mgr (run rv (evs @ [StdoutData chunk]) (start rv e this))) = q"
    and "isReady (mgr (run rv (evs @ [StdoutData chunk]) (start rv e this)))"
    and "timeout (run rv (evs @ [StdoutData chunk]) (start rv e this)) = None"
proof -
  let ?s = "run rv evs (start rv e this)"
  note pre = run_silent_start [OF assms(1-3), of this]
  have d: "deliver rv (StdoutData chunk) ?s =
       ?s\<lparr>mgr := (mgr ?s)\<lparr>port := q, isReady := True\<rparr>, timeout := None,
          outcome := Resolved q\<rparr>"
    using deliver_ready_chunk [OF pre(3) assms(4)] pre(1,4) assms(5)
    by (cases "match_localhost chunk") (simp_all del: deliver.simps)
  have one: "run rv (evs @ [StdoutData chunk]) (start rv e this) =
       ?s\<lparr>mgr := (mgr ?s)\<lparr>port := q, isReady := True\<rparr>, timeout := None,
          outcome := Resolved q\<rparr>"
    using d by (simp add: run_append del: deliver.simps)
  show "port (mgr (run rv (evs @ [StdoutData chunk]) (start rv e this))) = q"
    and "isReady (mgr (run rv (evs @ [StdoutData chunk]) (start rv e this)))"
    and "timeout (run rv (evs @ [StdoutData chunk]) (start rv e this)) = None"
    by (simp_all add: one)
  have "outcome (run rv (evs @ [StdoutData chunk]) (start rv e this)) = Resolved q"
    by (simp add: one)
  then have "outcome (run rv later (run rv (evs @ [StdoutData chunk]) (start rv e this)))
      = Resolved q"
    by (simp add: run_settled)
  moreover have "evs @ StdoutData chunk # later = (evs @ [StdoutData chunk]) @ later"
    by simp
  ultimately show "outcome (run rv (evs @ StdoutData chunk # later) (start rv e this)) = Resolved q"
    by (simp only: run_append)
qed

lemma parseInt_7899: "parseInt ''7899'' = 7899"
  by (simp add: parseInt_def digit_val_def)

lemma match_running_on_7899:
  "match_localhost ''Running on http://localhost:7899'' = Some ''7899''"
  by (simp add: is_digit_def)

text \<open>
  Claim C4, as the code has it. Take a call of \<open>start\<close> that spawns the child, and a
  chunk of standard output that contains \<open>Running on http://localhost:7899\<close>, in which
  the leftmost \<open>localhost:\<close> followed by digits reads 7899, and which, in revision B,
  does not contain \<open>initializing\<close>. If only silent events precede the chunk, the promise
  is resolved with 7899 whatever port was allocated and whatever comes later; the port
  of the object becomes 7899, the object is ready and the timer is cleared.
\<close>

theorem start_resolves_with_announced_port:
  assumes "snd (findAvailablePort (net e) DEFAULT_PORT MAX_PORT_ATTEMPTS) = Inr p"
    and "rv = RevB \<longrightarrow> existsSync e (getBackendPath e)"
    and "list_all (silent rv) evs"
    and "includes_js chunk ''Running on http://localhost:7899''"
    and "match_localhost chunk = Some ''7899''"
    and "rv = RevB \<longrightarrow> \<not> includes_js chunk ''initializing''"
  shows "outcome (run rv (evs @ StdoutData chunk # later) (start rv e this)) = Resolved 7899 \<and>
         port (mgr (run rv (evs @ [StdoutData chunk]) (start rv e this))) = 7899 \<and>
         isReady (mgr (run rv (evs @ [StdoutData chunk]) (start rv e this))) \<and>
         timeout (run rv (evs @ [StdoutData chunk]) (start rv e this)) = None"
proof -
  from assms(5,6) have rc: "ready_chunk rv chunk" by (cases rv) simp_all
  from assms(5)
  have q: "7899 = (case match_localhost chunk of Some ds \<Rightarrow> parseInt ds | None \<Rightarrow> p)"
    by (simp add: parseInt_7899)
  from first_ready_chunk [OF assms(1-3) rc q] show ?thesis by simp
qed

theorem start_resolves_with_announced_port_witness:
  "outcome (run RevB ([StdoutData ''hello''] @
       StdoutData ''Running on http://localhost:7899'' # [TimerFired])
     (start RevB env_dev constructor)) = Resolved 7899 \<and>
   port (mgr (start RevB env_dev constructor)) = 7863 \<and>
   port (mgr (run RevB ([StdoutData ''hello''] @ [StdoutData ''Running on http://localhost:7899''])
     (start RevB env_dev constructor))) = 7899"
proof -
  have "RevB = RevB \<longrightarrow> existsSync env_dev (getBackendPath env_dev)"
    by (simp add: exists_env_dev)
  moreover have "list_all (silent RevB) [StdoutData ''hello'']" by simp
  moreover have "includes_js ''Running on http://localhost:7899''
     ''Running on http://localhost:7899''" by simp
  moreover have "RevB = RevB \<longrightarrow>
     \<not> includes_js ''Running on http://localhost:7899'' ''initializing''" by simp
  ultimately show ?thesis
    using start_resolves_with_announced_port [OF alloc_env_dev _ _ _ match_running_on_7899,
        of RevB "[StdoutData ''hello'']" "[TimerFired]" constructor]
    by (simp add: start_B_env_dev)
qed

text \<open>
  The claim as the specification words it fails. In revision B a chunk that also
  contains \<open>initializing\<close> is only logged, so the call runs into the timeout. In either
  revision the port is taken from the leftmost match in the chunk, which need not be
  the one after \<open>Running on\<close>.
\<close>

theorem running_on_7899_counterexample:
  "includes_js ''Backend initializing... Running on http://localhost:7899''
     ''Running on http://localhost:7899'' \<and>
   outcome (run RevB [StdoutData ''Backend initializing... Running on http://localhost:7899'']
     (start RevB env_dev constructor)) = Pending \<and>
   outcome (run RevB
     [StdoutData ''Backend initializing... Running on http://localhost:7899'', TimerFired]
     (start RevB env_dev constructor)) = Rejected (StartupTimeout 60) \<and>
   includes_js ''proxy localhost:8000 Running on http://localhost:7899''
     ''Running on http://localhost:7899'' \<and>
   outcome (run RevA [StdoutData ''proxy localhost:8000 Running on http://localhost:7899'']
     (start RevA env_dev constructor)) = Resolved 8000"
  by (simp add: start_A_env_dev start_B_env_dev onStdout_A_def onStdout_B_def onTimeout_B_def
      is_digit_def parseInt_def digit_val_def)

text \<open>
  Claim C10, as the code has it. Take a call of \<open>start\<close> that spawns the child, \<open>p\<close>
  being the allocated port, and a chunk of standard output that contains \<open>Running on\<close>,
  has no \<open>localhost:\<close> followed by digits and, in revision B, does not contain
  \<open>initializing\<close>. If only silent events precede the chunk, the promise is resolved
  with \<open>p\<close> whatever comes later, the port of the object is still \<open>p\<close>, the object is
  ready and the timer is cleared.
\<close>

theorem start_resolves_with_allocated_port:
  assumes "snd (findAvailablePort (net e) DEFAULT_PORT MAX_PORT_ATTEMPTS) = Inr p"
    and "rv = RevB \<longrightarrow> existsSync e (getBackendPath e)"
    and "list_all (silent rv) evs"
    and "includes_js chunk ''Running on''"
    and "match_localhost chunk = None"
    and "rv = RevB \<longrightarrow> \<not> includes_js chunk ''initializing''"
  shows "outcome (run rv (evs @ StdoutData chunk # later) (start rv e this)) = Resolved p \<and>
         port (mgr (run rv (evs @ [StdoutData chunk]) (start rv e this))) = p \<and>
         isReady (mgr (run rv (evs @ [StdoutData chunk]) (start rv e this))) \<and>
         timeout (run rv (evs @ [StdoutData chunk]) (start rv e this)) = None"
proof -
  from assms(4,6) have rc: "ready_chunk rv chunk" by (cases rv) simp_all
  from assms(5)
  have q: "p = (case match_localhost chunk of Some ds \<Rightarrow> parseInt ds | None \<Rightarrow> p)"
    by simp
  from first_ready_chunk [OF assms(1-3) rc q] show ?thesis by simp
qed

theorem start_resolves_with_allocated_port_witness:
  "outcome (run RevA ([ProcExit None] @ StdoutData ''* Running on all addresses'' # [TimerFired])
     (start RevA env_dev constructor)) = Resolved 7863 \<and>
   outcome (run RevB ([ProcExit None] @ StdoutData ''* Running on all addresses'' # [TimerFired])
     (start RevB env_dev constructor)) = Resolved 7863 \<and>
   port (mgr (run RevB ([ProcExit None] @ [StdoutData ''* Running on all addresses''])
     (start RevB env_dev constructor))) = 7863"
proof -
  have "RevA = RevB \<longrightarrow> existsSync env_dev (getBackendPath env_dev)"
    "RevB = RevB \<longrightarrow> existsSync env_dev (getBackendPath env_dev)"
    by (simp_all add: exists_env_dev)
  moreover have "list_all (silent RevA) [ProcExit None]" "list_all (silent RevB) [ProcExit None]"
    by simp_all
  moreover have "includes_js ''* Running on all addresses'' ''Running on''" by simp
  moreover have "match_localhost ''* Running on all addresses'' = None" by simp
  moreover have "RevA = RevB \<longrightarrow> \<not> includes_js ''* Running on all addresses'' ''initializing''"
    "RevB = RevB \<longrightarrow> \<not> includes_js ''* Running on all addresses'' ''initializing''"
    by simp_all
  ultimately show ?thesis
    using start_resolves_with_allocated_port [OF alloc_env_dev, of RevA "[ProcExit None]"
        "''* Running on all addresses''" "[TimerFired]" constructor]
      start_resolves_with_allocated_port [OF alloc_env_dev, of RevB "[ProcExit None]"
        "''* Running on all addresses''" "[TimerFired]" constructor]
    by simp
qed

text \<open>
  The claim as it is worded fails. In revision B a chunk that also contains
  \<open>initializing\<close> is only logged. In either revision a readiness chunk that came
  earlier has settled the promise, here with another port.
\<close>

theorem running_on_without_port_counterexample:
  "includes_js ''Backend initializing... Running on all addresses'' ''Running on'' \<and>
   match_localhost ''Backend initializing... Running on all addresses'' = None \<and>
   outcome (run RevB [StdoutData ''Backend initializing... Running on all addresses'']
     (start RevB env_dev constructor)) = Pending \<and>
   isReady (mgr (run RevB [StdoutData ''Backend initializing... Running on all addresses'']
     (start RevB env_dev constructor))) = False \<and>
   port (mgr (start RevA env_dev constructor)) = 7863 \<and>
   outcome (run RevA [StdoutData ''localhost:5000'', StdoutData ''* Running on all addresses'']
     (start RevA env_dev constructor)) = Resolved 5000"
  by (simp add: start_A_env_dev start_B_env_dev onStdout_A_def onStdout_B_def
      is_digit_def parseInt_def digit_val_def)

subsection \<open>The ready flag\<close>

lemma spawned_deliver: "spawned (deliver rv ev st) = spawned st"
proof (cases ev)
  case (StdoutData chunk)
  show ?thesis
  proof (cases "ready_chunk rv chunk \<and> spawned st \<noteq> []")
    case True
    with StdoutData show ?thesis by (simp add: deliver_ready_chunk del: deliver.simps)
  next
    case False
    then show ?thesis using StdoutData deliver_other_chunk [of rv chunk st]
      by (cases "spawned st = []") auto
  qed
next
  case TimerFired
  then show ?thesis
    by (cases rv) (simp_all add: onTimeout_A_def onTimeout_B_def split: option.split)
qed (simp_all add: onError_def onExit_def)

lemma spawned_run: "spawned (run rv evs st) = spawned st"
  by (induction evs arbitrary: st) (simp_all add: spawned_deliver del: deliver.simps)

lemma ready_flags_append:
  "ready_flags rv (xs @ ys) st = ready_flags rv xs st @ ready_flags rv ys (run rv xs st)"
  by (induction xs arbitrary: st) (simp_all del: deliver.simps)

lemma rises_True_replicate: "rises True (replicate n True) = 0"
  by (induction n) simp_all

lemma rises_replicate_True: "rises b (replicate n True) = (if \<not> b \<and> 0 < n then 1 else 0)"
  by (cases n) (simp_all add: rises_True_replicate)

lemma rises_replicate_False: "rises False (replicate k False @ fs) = rises False fs"
  by (induction k) simp_all

lemma rises_snoc_False: "rises b (fs @ [False]) = rises b fs"
  by (induction fs arbitrary: b) simp_all

text \<open>Chunks of standard output never lower the flag.\<close>

lemma flags_data_ready:
  assumes "spawned st \<noteq> []" and "isReady (mgr st)"
  shows "ready_flags rv (map StdoutData cs) st = replicate (length cs) True"
  using assms
proof (induction cs arbitrary: st)
  case Nil
  show ?case by simp
next
  case (Cons c cs)
  let ?d = "deliver rv (StdoutData c) st"
  have sp: "spawned ?d \<noteq> []" using Cons.prems(1) by (simp only: spawned_deliver not_False_eq_True)
  have rd: "isReady (mgr ?d)"
  proof (cases "ready_chunk rv c")
    case True
    then show ?thesis by (simp add: deliver_ready_chunk [OF Cons.prems(1)] del: deliver.simps)
  next
    case False
    then show ?thesis using Cons.prems(2) by (simp add: deliver_other_chunk del: deliver.simps)
  qed
  from Cons.IH [OF sp rd] rd show ?case by (simp del: deliver.simps)
qed

text \<open>
  From a flag that is false, the flag stays false up to the first readiness chunk and
  is true from that chunk on.
\<close>

lemma flags_data_not_ready:
  assumes "spawned st \<noteq> []" and "\<not> isReady (mgr st)"
  shows "ready_flags rv (map StdoutData cs) st =
           replicate (length (takeWhile (\<lambda>c. \<not> ready_chunk rv c) cs)) False @
           replicate (length (dropWhile (\<lambda>c. \<not> ready_chunk rv c) cs)) True"
  using assms
proof (induction cs arbitrary: st)
  case Nil
  show ?case by simp
next
  case (Cons c cs)
  let ?d = "deliver rv (StdoutData c) st"
  have sp: "spawned ?d \<noteq> []" using Cons.prems(1) by (simp only: spawned_deliver not_False_eq_True)
  show ?case
  proof (cases "ready_chunk rv c")
    case True
    then have rd: "isReady (mgr ?d)"
      by (simp add: deliver_ready_chunk [OF Cons.prems(1)] del: deliver.simps)
    from flags_data_ready [OF sp rd, of rv cs] rd True show ?thesis
      by (simp del: deliver.simps)
  next
    case False
    then have same: "?d = st" by (rule deliver_other_chunk)
    from Cons.IH [OF Cons.prems] False same Cons.prems(2) show ?thesis
      by (simp del: deliver.simps)
  qed
qed

lemma rises_data_not_ready:
  assumes "spawned st \<noteq> []" and "\<not> isReady (mgr st)"
  shows "rises False (ready_flags rv (map StdoutData cs) st) =
           (if list_ex (ready_chunk rv) cs then 1 else 0)"
proof -
  have "(0 < length (dropWhile (\<lambda>c. \<not> ready_chunk rv c) cs)) = list_ex (ready_chunk rv) cs"
    by (induction cs) simp_all
  then show ?thesis
    by (simp add: flags_data_not_ready [OF assms] rises_replicate_False rises_replicate_True)
qed

lemma exit_resets:
  assumes "spawned st \<noteq> []"
  shows "isReady (mgr (run rv (evs @ [ProcExit code]) st)) = False"
proof -
  have "spawned (run rv evs st) \<noteq> []" using assms by (simp only: spawned_run not_False_eq_True)
  then show ?thesis by (simp add: run_append deliver_exit del: deliver.simps)
qed

text \<open>
  Claim C9, as the code has it. Take the handlers one call of \<open>start\<close> registered and
  the events of one child in which the chunks of standard output come before the event
  \<open>exit\<close>. From a ready flag that is false, the flag is false after every chunk before
  the first readiness chunk and true after that chunk and every later one, so it steps
  from false to true once if there is a readiness chunk and never otherwise. The event
  \<open>exit\<close> sets the flag to false, after any events.
\<close>

theorem ready_rises_once:
  assumes "spawned st \<noteq> []" and "\<not> isReady (mgr st)"
  shows "ready_flags rv (map StdoutData cs) st =
           replicate (length (takeWhile (\<lambda>c. \<not> ready_chunk rv c) cs)) False @
           replicate (length (dropWhile (\<lambda>c. \<not> ready_chunk rv c) cs)) True \<and>
         rises False (ready_flags rv (map StdoutData cs @ [ProcExit code]) st) =
           (if list_ex (ready_chunk rv) cs then 1 else 0) \<and>
         rises False (ready_flags rv (map StdoutData cs @ [ProcExit code]) st) \<le> 1 \<and>
         isReady (mgr (run rv (evs @ [ProcExit code]) st)) = False"
proof -
  have "ready_flags rv (map StdoutData cs @ [ProcExit code]) st =
          ready_flags rv (map StdoutData cs) st @ [False]"
    using exit_resets [OF assms(1), of rv "map StdoutData cs" code]
    by (simp add: ready_flags_append run_append del: deliver.simps)
  then have "rises False (ready_flags rv (map StdoutData cs @ [ProcExit code]) st) =
          (if list_ex (ready_chunk rv) cs then 1 else 0)"
    by (simp only: rises_snoc_False rises_data_not_ready [OF assms])
  with flags_data_not_ready [OF assms, of rv cs] exit_resets [OF assms(1), of rv evs code]
  show ?thesis by simp
qed

lemma spawned_start_B_env_dev: "spawned (start RevB env_dev constructor) \<noteq> []"
  by (simp add: start_B_env_dev)

lemma not_ready_start_B_env_dev: "\<not> isReady (mgr (start RevB env_dev constructor))"
  by (simp add: start_B_env_dev)

theorem ready_rises_once_witness:
  "ready_flags RevB
     (map StdoutData [''Backend initializing'', ''Launching Gradio'', ''localhost:7863''])
     (start RevB env_dev constructor) = [False, True, True] \<and>
   rises False (ready_flags RevB
     (map StdoutData [''Backend initializing'', ''Launching Gradio'', ''localhost:7863'']
       @ [ProcExit (Some 0)])
     (start RevB env_dev constructor)) = 1 \<and>
   isReady (mgr (run RevB ([StdoutData ''Launching Gradio''] @ [ProcExit (Some 0)])
     (start RevB env_dev constructor))) = False"
  using ready_rises_once [OF spawned_start_B_env_dev not_ready_start_B_env_dev,
      of RevB "[''Backend initializing'', ''Launching Gradio'', ''localhost:7863'']"
         "Some 0" "[StdoutData ''Launching Gradio'']"]
  by (simp add: is_digit_def)

text \<open>
  The claim as the specification words it fails for a list of events in which standard
  output arrives after the event \<open>exit\<close> (Node emits \<open>exit\<close> while the streams of the
  child may still be open): the flag then steps from false to true a second time.
\<close>

theorem ready_rises_twice_counterexample:
  "ready_flags RevA
     [StdoutData ''Running on http://localhost:7863'', ProcExit (Some 0),
      StdoutData ''Running on http://localhost:7863'']
     (start RevA env_dev constructor) = [True, False, True] \<and>
   rises False (ready_flags RevA
     [StdoutData ''Running on http://localhost:7863'', ProcExit (Some 0),
      StdoutData ''Running on http://localhost:7863'']
     (start RevA env_dev constructor)) = 2 \<and>
   ready_flags RevB
     [StdoutData ''Running on http://localhost:7863'', ProcExit (Some 0),
      StdoutData ''Running on http://localhost:7863'']
     (start RevB env_dev constructor) = [True, False, True]"
  by (simp add: start_A_env_dev start_B_env_dev onStdout_A_def onStdout_B_def onExit_def
      is_digit_def parseInt_def digit_val_def)

end
